theory Spec2Isabelle
  imports Complex_Main "HOL-Library.Log_Nat" "HOL-Library.Multiset"
begin

section \<open>Data model\<close>

text \<open>
  A cart line as the screens read it: \<open>item._id\<close>, \<open>item.name\<close> (MarketPage),
  \<open>item.examName\<close>, \<open>item.subjectName\<close>, \<open>item.subjectCode\<close>, \<open>item.price\<close>
  and \<open>item.image\<close> (CartPage). The price is kept as the decimal amount that the
  price text or number denotes.
\<close>

record cart_item =
  item_id :: string
  name :: string
  examName :: string
  subjectName :: string
  subjectCode :: string
  price :: rat
  image_uri :: string

subsection \<open>JavaScript numbers\<close>

text \<open>
  A JavaScript Number is an IEEE-754 binary64 value. A finite one is represented by the
  rational it denotes; \<open>NaN\<close> and the two infinities are collapsed into \<open>NonFinite\<close>
  (they are closed under addition). The sign of zero is not represented.
\<close>

datatype number = Finite rat | NonFinite

text \<open>\<open>ilog2 x\<close> is the binary exponent of a positive rational: \<open>2^e \<le> x < 2^(e+1)\<close>.\<close>

definition ilog2 :: "rat \<Rightarrow> int" where
  "ilog2 x = (let (a, b) = quotient_of x; d = bitlen a - bitlen b
              in if power_int 2 d \<le> x then d else d - 1)"

definition round_half_even :: "rat \<Rightarrow> int" where
  "round_half_even y = (let f = \<lfloor>y\<rfloor>; d = y - of_int f
                        in if d < 1 / 2 then f
                           else if 1 / 2 < d then f + 1
                           else if even f then f else f + 1)"

text \<open>The spacing of binary64 values around \<open>x\<close>: 52 fraction bits, exponents from -1022.\<close>

definition ulp :: "rat \<Rightarrow> rat" where
  "ulp x = power_int 2 (max (ilog2 \<bar>x\<bar>) (- 1022) - 52)"

text \<open>Round to nearest, ties to even; a result of magnitude \<open>2^1024\<close> is an infinity.\<close>

definition round_binary64 :: "rat \<Rightarrow> number" where
  "round_binary64 x =
     (if x = 0 then Finite 0
      else let r = of_int (round_half_even (x / ulp x)) * ulp x
           in if \<bar>r\<bar> < of_int (2 ^ 1024) then Finite r else NonFinite)"

text \<open>\<open>parseFloat(item.price)\<close>: the binary64 value nearest to the decimal.\<close>

definition parseFloat :: "rat \<Rightarrow> number" where
  "parseFloat p = round_binary64 p"

text \<open>The \<open>+\<close> of two Numbers.\<close>

fun add_number :: "number \<Rightarrow> number \<Rightarrow> number" where
  "add_number (Finite a) (Finite b) = round_binary64 (a + b)"
| "add_number _ _ = NonFinite"

text \<open>
  The text that \<open>toFixed(2)\<close> returns. For a finite \<open>x\<close> below \<open>10^21\<close> in magnitude it is
  the sign and the decimal digits of the integer \<open>n\<close> of hundredths nearest to \<open>\<bar>x\<bar>\<close>, the
  larger one on a tie: \<open>Fixed2 negative n\<close> stands for that text. Otherwise \<open>toFixed\<close>
  returns the Number's own text, which reads back as the same Number.
\<close>

datatype total_text = Fixed2 bool int | Verbatim number

definition toFixed2 :: "number \<Rightarrow> total_text" where
  "toFixed2 v = (case v of
       NonFinite \<Rightarrow> Verbatim NonFinite
     | Finite x \<Rightarrow> if 10 ^ 21 \<le> \<bar>x\<bar> then Verbatim v
                   else Fixed2 (x < 0) \<lfloor>\<bar>x\<bar> * 100 + 1 / 2\<rfloor>)"

text \<open>\<open>parseFloat(totalPrice)\<close> on such a text.\<close>

fun parseFloat_text :: "total_text \<Rightarrow> number" where
  "parseFloat_text (Fixed2 neg n) =
     round_binary64 ((if neg then - 1 else 1) * (of_int n / 100))"
| "parseFloat_text (Verbatim v) = v"

text \<open>
  CartPage.js, lines 44-46:
  \<^verbatim>\<open>cartItems.reduce((sum, item) => sum + parseFloat(item.price), 0).toFixed(2)\<close>
\<close>

definition totalPrice :: "cart_item list \<Rightarrow> total_text" where
  "totalPrice items =
     toFixed2 (foldl (\<lambda>sum item. add_number sum (parseFloat (price item))) (Finite 0) items)"

subsection \<open>The cart store\<close>

text \<open>
  Modelled from the spec: the cart context (\<open>src/contexts/CartContext\<close>), which provides
  \<open>addToCart\<close>, \<open>removeFromCart\<close> and \<open>clearCart\<close>, is not among the sources. Spec 4.1:
  \<open>add\<close> inserts if the id is not present and returns whether insertion occurred;
  \<open>remove\<close> is idempotent and removing an absent id is a no-op; \<open>clear\<close> empties the
  collection. The collection is ordered by insertion.
\<close>

definition addToCart :: "cart_item \<Rightarrow> cart_item list \<Rightarrow> bool \<times> cart_item list" where
  "addToCart item cart =
     (if item_id item \<in> set (map item_id cart) then (False, cart)
      else (True, cart @ [item]))"

definition removeFromCart :: "string \<Rightarrow> cart_item list \<Rightarrow> cart_item list" where
  "removeFromCart i cart = filter (\<lambda>item. item_id item \<noteq> i) cart"

definition clearCart :: "cart_item list \<Rightarrow> cart_item list" where
  "clearCart cart = []"

section \<open>Screens\<close>

text \<open>
  A button of the alert is a label and an \<open>onPress\<close> closure. The closures of the two
  screens are sequences of three statements only, so a closure is the list of its
  statements: \<open>setAlertVisible(false)\<close>, \<open>clearCart()\<close>,
  \<open>navigation.navigate(route)\<close>.
\<close>

datatype command = HideAlert | DoClearCart | DoNavigate string

record button =
  label :: string
  onPress :: "command list"

text \<open>
  What both screens hold: the cart of the context and the five alert state variables.
\<close>

record screen =
  cartItems :: "cart_item list"
  alertVisible :: bool
  alertTitle :: string
  alertMessage :: string
  alertIcon :: string
  alertButtons :: "button list"

text \<open>The order draft of CartPage.js, lines 139-154.\<close>

record order_item =
  product :: string
  item_examName :: string
  item_subjectName :: string
  item_subjectCode :: string
  item_price :: rat
  item_image :: string
  quantity :: nat

record order_draft =
  orderItems :: "order_item list"
  draft_totalPrice :: number
  paymentMethod :: string
  isPaid :: bool
  paidAt :: "int option"
  paymentResult :: string

text \<open>
  The calls that leave the component, and \<open>setLoading\<close>, in the order in which they are
  made. Console output is not recorded.
\<close>

datatype effect =
    SetLoading bool
  | FetchPaymentIntent total_text
  | InitPaymentSheet string string
  | PresentPaymentSheet
  | CreateOrder order_draft
  | ClearCart
  | Navigate string

text \<open>
  What the collaborators answer. The payment sheet calls resolve to \<open>{ error }\<close>;
  \<open>api.createOrder\<close> either throws (a value with an optional \<open>message\<close>) or resolves to
  \<open>{ success, data, message }\<close>. Of the created order only what lines 160-162 read is
  kept: for each order item, whether \<open>orderItem.product\<close> is a value with properties
  or \<open>null\<close>/\<open>undefined\<close>, on which reading \<open>.pdfLink\<close> throws a TypeError.
\<close>

datatype product_ref = ProductValue | NullProduct

record stripe_error =
  code :: string
  sdk_message :: string

record response =
  success :: bool
  data :: "product_ref list option"
  message :: "string option"

datatype order_outcome = Threw "string option" | Returned response

text \<open>
  A suspended \<open>handleCheckout\<close>: the \<open>await\<close> it waits at, with the variables of the
  invocation that are still read after it (\<open>cartItems\<close>, \<open>totalPrice\<close> of the render that
  created the handler, and \<open>clientSecret\<close>).
\<close>

datatype suspended =
    AwaitFetchPaymentIntent "cart_item list"
  | AwaitInitPaymentSheet "cart_item list" string
  | AwaitPresentPaymentSheet "cart_item list" string
  | AwaitCreateOrder

text \<open>The return points of \<open>handleCheckout\<close>: lines 98, 105, 121, 134 and 192 (twice).\<close>

datatype exit = CartEmpty | NoClientSecret | InitFailed | PaymentFailed
  | OrderPlaced | CheckoutFailed

datatype progress = Return exit | Await suspended

record page = screen +
  loading :: bool
  trace :: "effect list"
  pending :: "suspended list"

section \<open>CartPage: handleCheckout\<close>

definition setLoading :: "bool \<Rightarrow> page \<Rightarrow> page" where
  "setLoading b s = s\<lparr>loading := b, trace := trace s @ [SetLoading b]\<rparr>"

definition call :: "effect \<Rightarrow> page \<Rightarrow> page" where
  "call c s = s\<lparr>trace := trace s @ [c]\<rparr>"

text \<open>
  The five statements with which both screens raise the alert: \<open>setAlertTitle\<close>,
  \<open>setAlertMessage\<close>, \<open>setAlertIcon\<close>, \<open>setAlertButtons\<close>, \<open>setAlertVisible(true)\<close>.
\<close>

definition showAlert ::
  "string \<Rightarrow> string \<Rightarrow> string \<Rightarrow> button list \<Rightarrow> 'a screen_scheme \<Rightarrow> 'a screen_scheme" where
  "showAlert t m i bs s =
     s\<lparr>alertTitle := t, alertMessage := m, alertIcon := i, alertButtons := bs,
       alertVisible := True\<rparr>"

text \<open>\<open>{ text: 'OK', onPress: () => setAlertVisible(false) }\<close>\<close>

definition okButton :: button where
  "okButton = \<lparr>label = ''OK'', onPress = [HideAlert]\<rparr>"

text \<open>The OK button of the success alert, lines 170-177.\<close>

definition orderPlacedButton :: button where
  "orderPlacedButton =
     \<lparr>label = ''OK'', onPress = [HideAlert, DoClearCart, DoNavigate ''PurchaseHistory'']\<rparr>"

text \<open>\<open>m || d\<close> on an optional string: an absent or empty \<open>m\<close> is falsy.\<close>

fun or_else :: "string option \<Rightarrow> string \<Rightarrow> string" where
  "or_else None d = d"
| "or_else (Some []) d = d"
| "or_else (Some m) d = m"

text \<open>Lines 139-154.\<close>

definition orderData :: "cart_item list \<Rightarrow> string \<Rightarrow> int \<Rightarrow> order_draft" where
  "orderData items clientSecret now =
     \<lparr>orderItems = map (\<lambda>item.
          \<lparr>product = item_id item, item_examName = examName item,
           item_subjectName = subjectName item, item_subjectCode = subjectCode item,
           item_price = price item, item_image = image_uri item, quantity = 1\<rparr>) items,
      draft_totalPrice = parseFloat_text (totalPrice items),
      paymentMethod = ''Card'',
      isPaid = True,
      paidAt = Some now,
      paymentResult = clientSecret\<rparr>"

text \<open>Lines 90-102: up to the first \<open>await\<close>.\<close>

definition handleCheckout_start :: "cart_item list \<Rightarrow> page \<Rightarrow> progress \<times> page" where
  "handleCheckout_start items s =
     (let s1 = setLoading True s in
      if length items = 0 then
        (Return CartEmpty,
         setLoading False
           (showAlert ''Cart Empty'' ''Your cart is empty. Add items before checkout.''
              ''cart-outline'' [okButton] s1))
      else (Await (AwaitFetchPaymentIntent items), call (FetchPaymentIntent (totalPrice items)) s1))"

text \<open>Lines 102-112: \<open>fetchPaymentIntent\<close> has resolved to \<open>clientSecret\<close>.\<close>

fun after_fetchPaymentIntent ::
  "cart_item list \<Rightarrow> string option \<Rightarrow> page \<Rightarrow> progress \<times> page" where
  "after_fetchPaymentIntent items None s = (Return NoClientSecret, setLoading False s)"
| "after_fetchPaymentIntent items (Some []) s = (Return NoClientSecret, setLoading False s)"
| "after_fetchPaymentIntent items (Some clientSecret) s =
     (Await (AwaitInitPaymentSheet items clientSecret),
      call (InitPaymentSheet clientSecret ''Your App Name'') s)"

text \<open>Lines 109-125: \<open>initPaymentSheet\<close> has resolved to \<open>{ error: initError }\<close>.\<close>

fun after_initPaymentSheet ::
  "cart_item list \<Rightarrow> string \<Rightarrow> stripe_error option \<Rightarrow> page \<Rightarrow> progress \<times> page" where
  "after_initPaymentSheet items clientSecret (Some initError) s =
     (Return InitFailed,
      setLoading False
        (showAlert ''Payment Failed'' (sdk_message initError) ''cart-outline'' [okButton] s))"
| "after_initPaymentSheet items clientSecret None s =
     (Await (AwaitPresentPaymentSheet items clientSecret), call PresentPaymentSheet s)"

text \<open>
  Lines 125-156: \<open>presentPaymentSheet\<close> has resolved to \<open>{ error: paymentError }\<close>;
  \<open>now\<close> is what \<open>new Date()\<close> reads.
\<close>

fun after_presentPaymentSheet ::
  "cart_item list \<Rightarrow> string \<Rightarrow> stripe_error option \<Rightarrow> int \<Rightarrow> page \<Rightarrow> progress \<times> page" where
  "after_presentPaymentSheet items clientSecret (Some paymentError) now s =
     (Return PaymentFailed,
      setLoading False
        (showAlert ''Payment Failed'' (sdk_message paymentError) ''cart-outline'' [okButton] s))"
| "after_presentPaymentSheet items clientSecret None now s =
     (Await AwaitCreateOrder, call (CreateOrder (orderData items clientSecret now)) s)"

text \<open>
  The \<open>catch\<close> block, lines 183-190, for a thrown value whose \<open>message\<close> is \<open>m\<close>.
\<close>

definition checkoutError :: "string option \<Rightarrow> page \<Rightarrow> page" where
  "checkoutError m s =
     showAlert ''Checkout Failed'' (or_else m ''An error occurred during checkout.'')
       ''close-circle'' [okButton] s"

text \<open>
  A stand-in for the message of the TypeError that reading \<open>.pdfLink\<close> of \<open>null\<close> throws.
  The wording is the JavaScript engine's and differs between engines; it is not
  reproduced here. Only that the message is not empty is used, and no statement below
  speaks of its text.
\<close>

definition typeError_message :: string where
  "typeError_message = ''Cannot read property pdfLink of null''"

text \<open>Lines 156-192: \<open>api.createOrder\<close> has thrown or resolved.\<close>

fun after_createOrder :: "order_outcome \<Rightarrow> page \<Rightarrow> progress \<times> page" where
  "after_createOrder (Threw m) s = (Return CheckoutFailed, setLoading False (checkoutError m s))"
| "after_createOrder (Returned r) s =
     (case data r of
        Some createdOrder \<Rightarrow>
          if success r then
            if NullProduct \<in> set createdOrder then
              (Return CheckoutFailed,
               setLoading False (checkoutError (Some typeError_message) s))
            else
              (Return OrderPlaced,
               setLoading False
                 (showAlert ''Order Placed''
                    ''You have successfully purchased the products in your cart. Check your purchase history for details.''
                    ''checkmark-circle'' [orderPlacedButton] s))
          else
            (Return CheckoutFailed,
             setLoading False
               (checkoutError (Some (or_else (message r) ''Failed to place order.'')) s))
      | None \<Rightarrow>
          (Return CheckoutFailed,
           setLoading False
             (checkoutError (Some (or_else (message r) ''Failed to place order.'')) s)))"

text \<open>
  What an \<open>await\<close> resumes with. \<open>PresentResult\<close> also carries what \<open>new Date()\<close> reads
  when the handler resumes.
\<close>

datatype answer =
    ClientSecret "string option"
  | InitResult "stripe_error option"
  | PresentResult "stripe_error option" int
  | OrderResult order_outcome

text \<open>
  Resuming a suspended handler with the answer of the call it awaits. An answer of another
  call's kind is not one the await can receive: \<open>None\<close>.
\<close>

fun resume :: "suspended \<Rightarrow> answer \<Rightarrow> page \<Rightarrow> (progress \<times> page) option" where
  "resume (AwaitFetchPaymentIntent items) (ClientSecret c) s =
     Some (after_fetchPaymentIntent items c s)"
| "resume (AwaitInitPaymentSheet items clientSecret) (InitResult e) s =
     Some (after_initPaymentSheet items clientSecret e s)"
| "resume (AwaitPresentPaymentSheet items clientSecret) (PresentResult e now) s =
     Some (after_presentPaymentSheet items clientSecret e now s)"
| "resume AwaitCreateOrder (OrderResult r) s = Some (after_createOrder r s)"
| "resume _ _ _ = None"

text \<open>
  Running a handler to its return with the answers its awaits receive, in order. \<open>None\<close>:
  the handler is still suspended when the answers are used up, or an answer does not fit.
\<close>

fun drive :: "progress \<times> page \<Rightarrow> answer list \<Rightarrow> (exit \<times> page) option" where
  "drive (Return x, s) as = Some (x, s)"
| "drive (Await k, s) [] = None"
| "drive (Await k, s) (a # as) =
     (case resume k a s of None \<Rightarrow> None | Some ps \<Rightarrow> drive ps as)"

text \<open>
  One checkout attempt, from the press to the return of \<open>handleCheckout\<close>, with the
  collaborators' answers given. The handler reads \<open>cartItems\<close> of the render in which it
  was created.
\<close>

record answers =
  clientSecret_answer :: "string option"
  init_answer :: "stripe_error option"
  present_answer :: "stripe_error option"
  clock :: int
  order_answer :: order_outcome

definition handleCheckout :: "answers \<Rightarrow> page \<Rightarrow> (exit \<times> page) option" where
  "handleCheckout env s =
     drive (handleCheckout_start (cartItems s) s)
       [ClientSecret (clientSecret_answer env), InitResult (init_answer env),
        PresentResult (present_answer env) (clock env), OrderResult (order_answer env)]"

text \<open>The calls and \<open>setLoading\<close>s that an attempt adds to the trace.\<close>

definition new_effects :: "page \<Rightarrow> page \<Rightarrow> effect list" where
  "new_effects s s' = drop (length (trace s)) (trace s')"

section \<open>CartPage: the events of the screen\<close>

text \<open>
  Lines 246-277. The checkout button is rendered when the cart is not empty and is
  \<open>disabled\<close> while \<open>loading\<close>; its \<open>onPress\<close> is \<open>handleCheckout\<close>. The alert is given
  \<open>alertVisible\<close>, \<open>alertButtons\<close> and an \<open>onClose\<close> that hides it. A suspended handler
  resumes when the call it awaits resolves. Each event runs to its next \<open>await\<close> or return
  on the single event loop, and the screen that an event finds is the one rendered from
  the current state.
\<close>

datatype event =
    PressCheckout
  | Resolve nat answer
  | PressAlertButton nat
  | CloseAlert

fun run_command :: "command \<Rightarrow> page \<Rightarrow> page" where
  "run_command HideAlert s = s\<lparr>alertVisible := False\<rparr>"
| "run_command DoClearCart s = call ClearCart (s\<lparr>cartItems := clearCart (cartItems s)\<rparr>)"
| "run_command (DoNavigate route) s = call (Navigate route) s"

definition press :: "button \<Rightarrow> page \<Rightarrow> page" where
  "press b s = foldl (\<lambda>s c. run_command c s) s (onPress b)"

definition onClose :: "page \<Rightarrow> page" where
  "onClose s = s\<lparr>alertVisible := False\<rparr>"

text \<open>
  Modelled from the spec: the alert component (\<open>components/CustomAlert\<close>) is not among the
  sources. Spec 4.4 and 6: the notification surface accepts a title, a message, an icon
  hint and buttons, each with a label and an action, and is a pure sink. While the alert
  is visible, pressing its \<open>i\<close>-th button runs that button's \<open>onPress\<close> and dismissing it
  runs \<open>onClose\<close>; a hidden alert offers neither.
\<close>

fun pressAlertButton :: "nat \<Rightarrow> page \<Rightarrow> page" where
  "pressAlertButton i s =
     (if alertVisible s \<and> i < length (alertButtons s) then press (alertButtons s ! i) s else s)"

fun closeAlert :: "page \<Rightarrow> page" where
  "closeAlert s = (if alertVisible s then onClose s else s)"

text \<open>A handler that has suspended again joins the pending ones; one that returned is gone.\<close>

fun settle :: "progress \<times> page \<Rightarrow> page" where
  "settle (Return x, s) = s"
| "settle (Await k, s) = s\<lparr>pending := pending s @ [k]\<rparr>"

definition remove_nth :: "nat \<Rightarrow> 'a list \<Rightarrow> 'a list" where
  "remove_nth i xs = take i xs @ drop (Suc i) xs"

fun step :: "event \<Rightarrow> page \<Rightarrow> page" where
  "step PressCheckout s =
     (if 0 < length (cartItems s) \<and> \<not> loading s
      then settle (handleCheckout_start (cartItems s) s) else s)"
| "step (Resolve i a) s =
     (if i < length (pending s) then
        (case resume (pending s ! i) a (s\<lparr>pending := remove_nth i (pending s)\<rparr>) of
           None \<Rightarrow> s
         | Some ps \<Rightarrow> settle ps)
      else s)"
| "step (PressAlertButton i) s = pressAlertButton i s"
| "step CloseAlert s = closeAlert s"

definition run :: "event list \<Rightarrow> page \<Rightarrow> page" where
  "run evs s = foldl (\<lambda>s e. step e s) s evs"

section \<open>MarketPage: handleAddToCart\<close>

text \<open>Lines 168-186 of MarketPage.js.\<close>

definition handleAddToCart :: "cart_item \<Rightarrow> screen \<Rightarrow> screen" where
  "handleAddToCart item s =
     (let (added, cart) = addToCart item (cartItems s);
          s1 = s\<lparr>cartItems := cart\<rparr>;
          s2 = (if added
                then s1\<lparr>alertTitle := ''Success'',
                        alertMessage := name item @ '' has been added to your cart.'',
                        alertIcon := ''cart''\<rparr>
                else s1\<lparr>alertTitle := ''Info'',
                        alertMessage := name item @ '' is already in your cart.'',
                        alertIcon := ''information-circle''\<rparr>)
      in s2\<lparr>alertButtons := [okButton], alertVisible := True\<rparr>)"

section \<open>Observations and sample inputs\<close>

text \<open>The drafts submitted to the order API, in the order of the calls.\<close>

fun orders :: "effect list \<Rightarrow> order_draft list" where
  "orders [] = []"
| "orders (CreateOrder d # es) = d # orders es"
| "orders (e # es) = orders es"

text \<open>
  The page when \<open>handleCheckout\<close> waits for \<open>api.createOrder\<close>, in terms of the page \<open>s\<close>
  on which checkout was pressed.
\<close>

definition order_submitted :: "string \<Rightarrow> int \<Rightarrow> page \<Rightarrow> page" where
  "order_submitted c now s =
     s\<lparr>loading := True,
       trace := trace s @ [SetLoading True, FetchPaymentIntent (totalPrice (cartItems s)),
                           InitPaymentSheet c ''Your App Name'', PresentPaymentSheet,
                           CreateOrder (orderData (cartItems s) c now)]\<rparr>"

text \<open>No handler is running and the button is enabled.\<close>

definition idle :: "page \<Rightarrow> bool" where
  "idle s \<longleftrightarrow> pending s = [] \<and> \<not> loading s"

text \<open>A cart with one study guide, a fresh cart page, and collaborators that all succeed.\<close>

definition algebra :: cart_item where
  "algebra = \<lparr>item_id = ''p1'', name = ''Algebra'', examName = ''Algebra I'',
     subjectName = ''Mathematics'', subjectCode = ''M101'', price = 1999 / 100,
     image_uri = ''algebra.png''\<rparr>"

definition fresh_page :: "cart_item list \<Rightarrow> page" where
  "fresh_page cart = \<lparr>cartItems = cart, alertVisible = False, alertTitle = [],
     alertMessage = [], alertIcon = [], alertButtons = [], loading = False, trace = [],
     pending = []\<rparr>"

definition all_succeed :: answers where
  "all_succeed = \<lparr>clientSecret_answer = Some ''pi_secret'', init_answer = None,
     present_answer = None, clock = 1700000000,
     order_answer = Returned \<lparr>success = True, data = Some [ProductValue], message = None\<rparr>\<rparr>"

definition canceled :: stripe_error where
  "canceled = \<lparr>code = ''Canceled'', sdk_message = ''The payment has been canceled''\<rparr>"

text \<open>The page after the attempt in which all collaborators succeed on that cart.\<close>

definition order_placed_page :: page where
  "order_placed_page =
     (fresh_page [algebra])\<lparr>alertTitle := ''Order Placed'',
        alertMessage := ''You have successfully purchased the products in your cart. Check your purchase history for details.'',
        alertIcon := ''checkmark-circle'', alertButtons := [orderPlacedButton],
        alertVisible := True,
        trace := [SetLoading True, FetchPaymentIntent (totalPrice [algebra]),
                  InitPaymentSheet ''pi_secret'' ''Your App Name'', PresentPaymentSheet,
                  CreateOrder (orderData [algebra] ''pi_secret'' 1700000000),
                  SetLoading False]\<rparr>"




text \<open>The market screen with an empty cart and no alert.\<close>

definition market_page :: screen where
  "market_page = \<lparr>cartItems = [], alertVisible = False, alertTitle = [], alertMessage = [],
     alertIcon = [], alertButtons = []\<rparr>"

text \<open>
  For the bound on order calls: a suspended handler that has not yet called the order
  API counts one; \<open>one_in_flight\<close> and \<open>orders_bounded\<close> are the invariants of the event
  loop.
\<close>

definition unpaid :: "suspended \<Rightarrow> nat" where
  "unpaid k = (if k = AwaitCreateOrder then 0 else 1)"

definition one_in_flight :: "page \<Rightarrow> bool" where
  "one_in_flight s \<longleftrightarrow> length (pending s) \<le> 1 \<and> (loading s \<longleftrightarrow> pending s \<noteq> [])"

definition orders_bounded :: "nat \<Rightarrow> page \<Rightarrow> bool" where
  "orders_bounded n s \<longleftrightarrow>
     length (pending s) \<le> 1 \<and>
     length (orders (trace s)) + sum_list (map unpaid (pending s)) \<le> n"

text \<open>The answers of the sample attempt, as the events that resume the handler.\<close>

definition all_resolve :: "event list" where
  "all_resolve = [Resolve 0 (ClientSecret (Some ''pi_secret'')), Resolve 0 (InitResult None),
     Resolve 0 (PresentResult None 1700000000),
     Resolve 0 (OrderResult (order_answer all_succeed))]"

text \<open>
  Following the spec's words (3, 4.1, 8): the exact decimal sum of the constituent item
  prices over the snapshot. It is the statement to compare \<open>totalPrice\<close> with, not code of
  the screen.
\<close>

definition exact_decimal_sum :: "cart_item list \<Rightarrow> rat" where
  "exact_decimal_sum items = sum_list (map price items)"

text \<open>A non-negative amount of whole cents.\<close>

definition whole_cents :: "rat \<Rightarrow> bool" where
  "whole_cents p \<longleftrightarrow> 0 \<le> p \<and> of_int \<lfloor>100 * p\<rfloor> = 100 * p"

text \<open>
  The Number that \<open>reduce\<close> returns in \<open>totalPrice\<close>, and the bound \<open>2^-23\<close> on the error
  of one rounding below \<open>2^30\<close>.
\<close>

definition float_sum :: "cart_item list \<Rightarrow> number" where
  "float_sum items = foldl (\<lambda>sum item. add_number sum (parseFloat (price item))) (Finite 0) items"

definition eps :: rat where "eps = 1 / 2 ^ 23"

text \<open>A second study guide.\<close>

definition geometry :: cart_item where
  "geometry = \<lparr>item_id = ''p2'', name = ''Geometry'', examName = ''Geometry I'',
     subjectName = ''Mathematics'', subjectCode = ''M102'', price = 2499 / 100,
     image_uri = ''geometry.png''\<rparr>"

section \<open>The outcomes of one checkout attempt\<close>

lemmas checkout_defs = handleCheckout_def handleCheckout_start_def setLoading_def call_def
  showAlert_def checkoutError_def

lemma orders_append: "orders (xs @ ys) = orders xs @ orders ys"
  by (induction xs rule: orders.induct) simp_all

lemma handleCheckout_cases:
  obtains
    (empty) "cartItems (s::page) = []"
  | (no_secret) "cartItems s \<noteq> []"
      "clientSecret_answer (env::answers) = None \<or> clientSecret_answer env = Some []"
  | (init_error) c e where "cartItems s \<noteq> []" "clientSecret_answer env = Some c" "c \<noteq> []"
      "init_answer env = Some e"
  | (present_error) c e where "cartItems s \<noteq> []" "clientSecret_answer env = Some c" "c \<noteq> []"
      "init_answer env = None" "present_answer env = Some e"
  | (paid) c where "cartItems s \<noteq> []" "clientSecret_answer env = Some c" "c \<noteq> []"
      "init_answer env = None" "present_answer env = None"
  by (cases "cartItems s"; cases "clientSecret_answer env"; cases "init_answer env";
      cases "present_answer env") auto

lemma handleCheckout_empty:
  "cartItems s = [] \<Longrightarrow>
   handleCheckout env s = Some (CartEmpty,
     s\<lparr>alertTitle := ''Cart Empty'',
       alertMessage := ''Your cart is empty. Add items before checkout.'',
       alertIcon := ''cart-outline'', alertButtons := [okButton], alertVisible := True,
       loading := False, trace := trace s @ [SetLoading True, SetLoading False]\<rparr>)"
  by (simp add: checkout_defs)

lemma handleCheckout_no_secret:
  "cartItems s \<noteq> [] \<Longrightarrow>
   clientSecret_answer env = None \<or> clientSecret_answer env = Some [] \<Longrightarrow>
   handleCheckout env s = Some (NoClientSecret,
     s\<lparr>loading := False,
       trace := trace s @ [SetLoading True, FetchPaymentIntent (totalPrice (cartItems s)),
                           SetLoading False]\<rparr>)"
  by (auto simp add: checkout_defs)

lemma handleCheckout_init_error:
  "cartItems s \<noteq> [] \<Longrightarrow> clientSecret_answer env = Some c \<Longrightarrow> c \<noteq> [] \<Longrightarrow>
   init_answer env = Some e \<Longrightarrow>
   handleCheckout env s = Some (InitFailed,
     s\<lparr>alertTitle := ''Payment Failed'', alertMessage := sdk_message e,
       alertIcon := ''cart-outline'', alertButtons := [okButton], alertVisible := True,
       loading := False,
       trace := trace s @ [SetLoading True, FetchPaymentIntent (totalPrice (cartItems s)),
                           InitPaymentSheet c ''Your App Name'', SetLoading False]\<rparr>)"
  by (cases c) (simp_all add: checkout_defs)

lemma handleCheckout_present_error:
  "cartItems s \<noteq> [] \<Longrightarrow> clientSecret_answer env = Some c \<Longrightarrow> c \<noteq> [] \<Longrightarrow>
   init_answer env = None \<Longrightarrow> present_answer env = Some e \<Longrightarrow>
   handleCheckout env s = Some (PaymentFailed,
     s\<lparr>alertTitle := ''Payment Failed'', alertMessage := sdk_message e,
       alertIcon := ''cart-outline'', alertButtons := [okButton], alertVisible := True,
       loading := False,
       trace := trace s @ [SetLoading True, FetchPaymentIntent (totalPrice (cartItems s)),
                           InitPaymentSheet c ''Your App Name'', PresentPaymentSheet,
                           SetLoading False]\<rparr>)"
  by (cases c) (simp_all add: checkout_defs)

lemma after_createOrder_returns:
  "\<exists>x s'. after_createOrder r s = (Return x, s') \<and> (x = OrderPlaced \<or> x = CheckoutFailed) \<and>
     trace s' = trace s @ [SetLoading False] \<and> \<not> loading s' \<and> cartItems s' = cartItems s \<and>
     pending s' = pending s \<and> alertVisible s' \<and>
     alertButtons s' = (if x = OrderPlaced then [orderPlacedButton] else [okButton]) \<and>
     alertTitle s' = (if x = OrderPlaced then ''Order Placed'' else ''Checkout Failed'')"
  by (cases r) (auto simp: setLoading_def showAlert_def checkoutError_def split: option.splits)

lemma handleCheckout_paid:
  "cartItems s \<noteq> [] \<Longrightarrow> clientSecret_answer env = Some c \<Longrightarrow> c \<noteq> [] \<Longrightarrow>
   init_answer env = None \<Longrightarrow> present_answer env = None \<Longrightarrow>
   \<exists>x s'. after_createOrder (order_answer env) (order_submitted c (clock env) s) = (Return x, s')
      \<and> handleCheckout env s = Some (x, s')"
  using after_createOrder_returns[of "order_answer env" "order_submitted c (clock env) s"]
  by (cases c) (auto simp add: checkout_defs order_submitted_def)

lemma handleCheckout_returns: "\<exists>x s'. handleCheckout env s = Some (x, s')"
  by (rule handleCheckout_cases[where s=s and env=env])
    (use handleCheckout_empty handleCheckout_no_secret handleCheckout_init_error
      handleCheckout_present_error handleCheckout_paid in blast)+

lemma handleCheckout_frame:
  "\<exists>x s'. handleCheckout env s = Some (x, s') \<and> trace s' = trace s @ new_effects s s' \<and>
     cartItems s' = cartItems s \<and> ClearCart \<notin> set (new_effects s s') \<and> \<not> loading s'"
proof (cases rule: handleCheckout_cases[where s=s and env=env])
  case empty
  then show ?thesis by (simp add: handleCheckout_empty new_effects_def)
next
  case no_secret
  then show ?thesis by (simp add: handleCheckout_no_secret new_effects_def)
next
  case (init_error c e)
  then show ?thesis by (simp add: handleCheckout_init_error new_effects_def)
next
  case (present_error c e)
  then show ?thesis by (simp add: handleCheckout_present_error new_effects_def)
next
  case (paid c)
  from handleCheckout_paid[OF this]
    after_createOrder_returns[of "order_answer env" "order_submitted c (clock env) s"]
  show ?thesis by (auto simp: new_effects_def order_submitted_def)
qed

section \<open>Checkout on an empty cart\<close>

text \<open>
  Claim C4. A checkout started on an empty cart returns at once at the empty-cart exit
  with the ``Cart Empty'' alert raised, and the only things the attempt does are the two
  \<open>setLoading\<close> calls: the payment-intent provider, the payment sheet and the order API are
  not called.
\<close>

theorem empty_cart_checkout_makes_no_call:
  "cartItems s = [] \<Longrightarrow>
   \<exists>s'. handleCheckout env s = Some (CartEmpty, s') \<and>
        new_effects s s' = [SetLoading True, SetLoading False] \<and>
        alertVisible s' \<and> alertTitle s' = ''Cart Empty'' \<and>
        alertMessage s' = ''Your cart is empty. Add items before checkout.''"
  by (simp add: handleCheckout_empty new_effects_def)

theorem empty_cart_checkout_makes_no_call_witness:
  "cartItems (fresh_page []) = [] \<and>
   (\<exists>s'. handleCheckout all_succeed (fresh_page []) = Some (CartEmpty, s') \<and>
      new_effects (fresh_page []) s' = [SetLoading True, SetLoading False] \<and>
      alertVisible s' \<and> alertTitle s' = ''Cart Empty'' \<and>
      alertMessage s' = ''Your cart is empty. Add items before checkout.'')"
  using empty_cart_checkout_makes_no_call[of "fresh_page []" all_succeed]
  by (simp add: fresh_page_def)

lemma after_createOrder_placed_iff:
  "after_createOrder r s = (Return x, s') \<Longrightarrow>
   x = OrderPlaced \<longleftrightarrow>
     (\<exists>resp items. r = Returned resp \<and> success resp \<and> data resp = Some items \<and>
        NullProduct \<notin> set items)"
  by (cases r) (auto split: option.splits if_splits)

lemma handleCheckout_all_succeed:
  "handleCheckout all_succeed (fresh_page [algebra]) = Some (OrderPlaced, order_placed_page)"
  by (simp add: checkout_defs all_succeed_def fresh_page_def order_placed_page_def)

lemma handleCheckout_placed:
  assumes "handleCheckout env s = Some (OrderPlaced, s')"
  obtains c where "cartItems s \<noteq> []" "clientSecret_answer env = Some c" "c \<noteq> []"
    "init_answer env = None" "present_answer env = None"
    "after_createOrder (order_answer env) (order_submitted c (clock env) s) =
       (Return OrderPlaced, s')"
proof (cases rule: handleCheckout_cases[where s=s and env=env])
  case empty
  then show ?thesis using assms by (simp add: handleCheckout_empty)
next
  case no_secret
  then show ?thesis using assms by (simp add: handleCheckout_no_secret)
next
  case (init_error c e)
  then show ?thesis using assms by (simp add: handleCheckout_init_error)
next
  case (present_error c e)
  then show ?thesis using assms by (simp add: handleCheckout_present_error)
next
  case (paid c)
  from handleCheckout_paid[OF this] assms that[OF paid] show ?thesis by auto
qed

lemma press_orderPlacedButton:
  "press orderPlacedButton s =
     s\<lparr>alertVisible := False, cartItems := [],
       trace := trace s @ [ClearCart, Navigate ''PurchaseHistory'']\<rparr>"
  by (simp add: press_def orderPlacedButton_def call_def clearCart_def)


section \<open>Paid drafts and the payment sheet\<close>

text \<open>
  Claim C1. Every checkout attempt returns, and every draft it submits to the order API
  is marked paid with \<open>paidAt\<close> set to the time read after the payment sheet returned, is
  submitted only when \<open>presentPaymentSheet\<close> returned no error, and directly follows the
  \<open>presentPaymentSheet\<close> call among the attempt's calls. When the cart is not empty, a
  client secret comes back and \<open>initPaymentSheet\<close> and \<open>presentPaymentSheet\<close> return no
  error, the attempt calls \<open>api.createOrder\<close> exactly once, with the paid draft of the
  cart; when moreover the order API answers with \<open>success\<close> and \<open>data\<close> whose items have
  their products, the attempt ends at the order-placed exit. An attempt that ends at the
  order-placed exit has called \<open>api.createOrder\<close> exactly once, with a paid draft.
\<close>

theorem paid_draft_only_after_payment_sheet:
  "\<exists>x s'. handleCheckout env s = Some (x, s') \<and>
     (\<forall>d \<in> set (orders (new_effects s s')).
         isPaid d \<and> paidAt d = Some (clock env) \<and> present_answer env = None \<and>
         (\<exists>pre post. new_effects s s' = pre @ PresentPaymentSheet # CreateOrder d # post)) \<and>
     (cartItems s \<noteq> [] \<and> (\<exists>c. clientSecret_answer env = Some c \<and> c \<noteq> []) \<and>
      init_answer env = None \<and> present_answer env = None \<longrightarrow>
        (\<exists>c. clientSecret_answer env = Some c \<and>
           orders (new_effects s s') = [orderData (cartItems s) c (clock env)]) \<and>
        (\<exists>d. orders (new_effects s s') = [d] \<and> isPaid d) \<and>
        ((\<exists>resp items. order_answer env = Returned resp \<and> success resp \<and>
            data resp = Some items \<and> NullProduct \<notin> set items) \<longrightarrow> x = OrderPlaced)) \<and>
     (x = OrderPlaced \<longrightarrow> (\<exists>d. orders (new_effects s s') = [d] \<and> isPaid d))"
proof (cases rule: handleCheckout_cases[where s=s and env=env])
  case empty
  then show ?thesis by (simp add: handleCheckout_empty new_effects_def)
next
  case no_secret
  then show ?thesis by (auto simp add: handleCheckout_no_secret new_effects_def)
next
  case (init_error c e)
  then show ?thesis by (simp add: handleCheckout_init_error new_effects_def)
next
  case (present_error c e)
  then show ?thesis by (simp add: handleCheckout_present_error new_effects_def)
next
  case (paid c)
  from handleCheckout_paid[OF this] obtain x s' where
    a: "after_createOrder (order_answer env) (order_submitted c (clock env) s) = (Return x, s')"
    and h: "handleCheckout env s = Some (x, s')" by blast
  from a after_createOrder_returns[of "order_answer env" "order_submitted c (clock env) s"]
  have t: "trace s' = trace (order_submitted c (clock env) s) @ [SetLoading False]" by auto
  let ?d = "orderData (cartItems s) c (clock env)"
  have n: "new_effects s s' =
      [SetLoading True, FetchPaymentIntent (totalPrice (cartItems s)),
       InitPaymentSheet c ''Your App Name''] @
      PresentPaymentSheet # CreateOrder ?d # [SetLoading False]"
    by (simp add: new_effects_def t order_submitted_def)
  have o: "orders (new_effects s s') = [?d]" by (simp add: n)
  have p: "isPaid ?d \<and> paidAt ?d = Some (clock env)" by (simp add: orderData_def)
  have q: "\<exists>pre post. new_effects s s' = pre @ PresentPaymentSheet # CreateOrder ?d # post"
    using n by blast
  have 1: "\<forall>d \<in> set (orders (new_effects s s')).
         isPaid d \<and> paidAt d = Some (clock env) \<and> present_answer env = None \<and>
         (\<exists>pre post. new_effects s s' = pre @ PresentPaymentSheet # CreateOrder d # post)"
    unfolding o using p q paid(5) by simp
  have 2: "\<exists>c. clientSecret_answer env = Some c \<and>
      orders (new_effects s s') = [orderData (cartItems s) c (clock env)]"
    using o paid(2) by simp
  have 3: "\<exists>d. orders (new_effects s s') = [d] \<and> isPaid d"
    using o p by simp
  have 4: "(\<exists>resp items. order_answer env = Returned resp \<and> success resp \<and>
      data resp = Some items \<and> NullProduct \<notin> set items) \<longrightarrow> x = OrderPlaced"
    using after_createOrder_placed_iff[OF a] by blast
  show ?thesis using h 1 2 3 4 by blast
qed

theorem paid_draft_only_after_payment_sheet_witness:
  "cartItems (fresh_page [algebra]) \<noteq> [] \<and>
   clientSecret_answer all_succeed = Some ''pi_secret'' \<and>
   init_answer all_succeed = None \<and> present_answer all_succeed = None \<and>
   order_answer all_succeed =
     Returned \<lparr>success = True, data = Some [ProductValue], message = None\<rparr> \<and>
   (\<exists>s'. handleCheckout all_succeed (fresh_page [algebra]) = Some (OrderPlaced, s') \<and>
      orders (new_effects (fresh_page [algebra]) s') =
        [orderData [algebra] ''pi_secret'' 1700000000] \<and>
      isPaid (orderData [algebra] ''pi_secret'' 1700000000) \<and>
      paidAt (orderData [algebra] ''pi_secret'' 1700000000) = Some 1700000000)"
proof -
  let ?p = "fresh_page [algebra]"
  have i: "cartItems ?p \<noteq> []" "clientSecret_answer all_succeed = Some ''pi_secret''"
    "''pi_secret'' \<noteq> []" "init_answer all_succeed = None" "present_answer all_succeed = None"
    "clock all_succeed = 1700000000" "cartItems ?p = [algebra]"
    and r: "order_answer all_succeed =
      Returned \<lparr>success = True, data = Some [ProductValue], message = None\<rparr>"
    by (simp_all add: all_succeed_def fresh_page_def)
  have g: "\<exists>resp items. order_answer all_succeed = Returned resp \<and> success resp \<and>
      data resp = Some items \<and> NullProduct \<notin> set items"
    unfolding r by simp
  from paid_draft_only_after_payment_sheet[of all_succeed ?p] obtain x s' where
    h: "handleCheckout all_succeed ?p = Some (x, s')"
    and a: "\<forall>d \<in> set (orders (new_effects ?p s')).
         isPaid d \<and> paidAt d = Some (clock all_succeed)"
    and b: "cartItems ?p \<noteq> [] \<and> (\<exists>c. clientSecret_answer all_succeed = Some c \<and> c \<noteq> []) \<and>
      init_answer all_succeed = None \<and> present_answer all_succeed = None \<longrightarrow>
        (\<exists>c. clientSecret_answer all_succeed = Some c \<and>
           orders (new_effects ?p s') = [orderData (cartItems ?p) c (clock all_succeed)]) \<and>
        ((\<exists>resp items. order_answer all_succeed = Returned resp \<and> success resp \<and>
            data resp = Some items \<and> NullProduct \<notin> set items) \<longrightarrow> x = OrderPlaced)"
    by blast
  from b i g have x: "x = OrderPlaced"
    and o: "orders (new_effects ?p s') = [orderData [algebra] ''pi_secret'' 1700000000]"
    by auto
  from a o have "isPaid (orderData [algebra] ''pi_secret'' 1700000000) \<and>
      paidAt (orderData [algebra] ''pi_secret'' 1700000000) = Some 1700000000"
    using i(6) by simp
  with h x o i r show ?thesis by blast
qed

section \<open>What follows a placed order\<close>

text \<open>
  The stated order of the terminal actions (cart cleared, then navigation, then the
  success notification) is not the order of the code. After the attempt in which all
  collaborators succeed, the ``Order Placed'' alert is up while the cart still holds its
  item and neither \<open>clearCart\<close> nor \<open>navigation.navigate\<close> has been called.
\<close>

theorem notification_precedes_clear_counterexample:
  "handleCheckout all_succeed (fresh_page [algebra]) = Some (OrderPlaced, order_placed_page) \<and>
   alertVisible order_placed_page \<and> alertTitle order_placed_page = ''Order Placed'' \<and>
   cartItems order_placed_page = [algebra] \<and>
   ClearCart \<notin> set (trace order_placed_page) \<and>
   Navigate ''PurchaseHistory'' \<notin> set (trace order_placed_page)"
  by (simp add: checkout_defs all_succeed_def fresh_page_def order_placed_page_def)

text \<open>
  Claim C2, as amended. When an attempt ends at the order-placed exit, the order API has
  answered with \<open>success\<close> and \<open>data\<close>, and \<open>api.createOrder\<close> was the attempt's last call. The
  success notification is raised first, with the cart as it was and without any call of
  \<open>clearCart\<close> or \<open>navigation.navigate\<close> during the attempt. Pressing the notification's OK
  button then hides it, clears the cart and navigates to the purchase history, in that
  order. So the cart is not cleared before the order API has confirmed the order.
\<close>

theorem placed_order_notifies_then_clears_then_navigates:
  assumes "handleCheckout env s = Some (OrderPlaced, s')"
  shows "(\<exists>resp items. order_answer env = Returned resp \<and> success resp \<and>
            data resp = Some items) \<and>
     (\<exists>pre d. new_effects s s' = pre @ [CreateOrder d, SetLoading False] \<and> orders pre = []) \<and>
     alertVisible s' \<and> alertTitle s' = ''Order Placed'' \<and>
     cartItems s' = cartItems s \<and> ClearCart \<notin> set (new_effects s s') \<and>
     (\<forall>r. Navigate r \<notin> set (new_effects s s')) \<and>
     step (PressAlertButton 0) s' =
       s'\<lparr>alertVisible := False, cartItems := [],
          trace := trace s' @ [ClearCart, Navigate ''PurchaseHistory'']\<rparr>"
proof -
  from assms obtain c where
    a: "after_createOrder (order_answer env) (order_submitted c (clock env) s) =
          (Return OrderPlaced, s')"
    by (rule handleCheckout_placed)
  from a after_createOrder_returns[of "order_answer env" "order_submitted c (clock env) s"]
  have r: "trace s' = trace (order_submitted c (clock env) s) @ [SetLoading False]"
    "cartItems s' = cartItems (order_submitted c (clock env) s)" "alertVisible s'"
    "alertButtons s' = [orderPlacedButton]" "alertTitle s' = ''Order Placed''"
    by auto
  have n: "new_effects s s' =
      [SetLoading True, FetchPaymentIntent (totalPrice (cartItems s)),
       InitPaymentSheet c ''Your App Name'', PresentPaymentSheet] @
      [CreateOrder (orderData (cartItems s) c (clock env)), SetLoading False]"
    by (simp add: new_effects_def r order_submitted_def)
  have 1: "\<exists>resp items. order_answer env = Returned resp \<and> success resp \<and>
      data resp = Some items"
    using after_createOrder_placed_iff[OF a] by blast
  have 2: "\<exists>pre d. new_effects s s' = pre @ [CreateOrder d, SetLoading False] \<and> orders pre = []"
    by (rule exI[of _ "[SetLoading True, FetchPaymentIntent (totalPrice (cartItems s)),
       InitPaymentSheet c ''Your App Name'', PresentPaymentSheet]"], rule exI, simp add: n)
  have 3: "cartItems s' = cartItems s" using r by (simp add: order_submitted_def)
  have 4: "ClearCart \<notin> set (new_effects s s') \<and> (\<forall>r. Navigate r \<notin> set (new_effects s s'))"
    by (simp add: n)
  have 5: "step (PressAlertButton 0) s' =
       s'\<lparr>alertVisible := False, cartItems := [],
          trace := trace s' @ [ClearCart, Navigate ''PurchaseHistory'']\<rparr>"
    using r by (simp add: press_orderPlacedButton)
  show ?thesis using 1 2 3 4 5 r by blast
qed

theorem placed_order_notifies_then_clears_then_navigates_witness:
  "handleCheckout all_succeed (fresh_page [algebra]) = Some (OrderPlaced, order_placed_page) \<and>
   cartItems order_placed_page = cartItems (fresh_page [algebra]) \<and>
   step (PressAlertButton 0) order_placed_page =
       order_placed_page\<lparr>alertVisible := False, cartItems := [],
          trace := trace order_placed_page @ [ClearCart, Navigate ''PurchaseHistory'']\<rparr>"
  using placed_order_notifies_then_clears_then_navigates[OF handleCheckout_all_succeed]
    handleCheckout_all_succeed by blast


section \<open>Failed attempts leave the cart alone\<close>






section \<open>What the user is told on failure\<close>




section \<open>Errors of the payment sheet\<close>

text \<open>
  Claim C8. Whatever error \<open>presentPaymentSheet\<close> returns, the attempt ends at the one
  payment-failed exit: the ``Payment Failed'' alert with the error's message and the plain
  OK button, loading cleared, the cart kept and no order submitted. The error's code is
  never read: an error with another code (a cancellation or not) and the same message
  gives the same result.
\<close>

theorem present_error_single_failure_kind:
  assumes "cartItems s \<noteq> []" "clientSecret_answer env = Some c" "c \<noteq> []"
    "init_answer env = None" "present_answer env = Some e"
  shows "\<exists>s'. handleCheckout env s = Some (PaymentFailed, s') \<and>
      alertVisible s' \<and> alertTitle s' = ''Payment Failed'' \<and> alertMessage s' = sdk_message e \<and>
      alertIcon s' = ''cart-outline'' \<and> alertButtons s' = [okButton] \<and> \<not> loading s' \<and>
      orders (new_effects s s') = [] \<and> cartItems s' = cartItems s \<and>
      (\<forall>k. handleCheckout (env\<lparr>present_answer := Some (e\<lparr>code := k\<rparr>)\<rparr>) s = handleCheckout env s)"
proof -
  have "handleCheckout (env\<lparr>present_answer := Some (e\<lparr>code := k\<rparr>)\<rparr>) s = handleCheckout env s" for k
    using assms
      handleCheckout_present_error[of s "env\<lparr>present_answer := Some (e\<lparr>code := k\<rparr>)\<rparr>" c "e\<lparr>code := k\<rparr>"]
      handleCheckout_present_error[of s env c e]
    by simp
  then show ?thesis using assms by (simp add: handleCheckout_present_error new_effects_def)
qed

theorem present_error_single_failure_kind_witness:
  "\<exists>s'. handleCheckout (all_succeed\<lparr>present_answer := Some canceled\<rparr>) (fresh_page [algebra]) =
            Some (PaymentFailed, s') \<and>
      alertTitle s' = ''Payment Failed'' \<and> alertMessage s' = ''The payment has been canceled'' \<and>
      handleCheckout (all_succeed\<lparr>present_answer := Some (canceled\<lparr>code := ''Failed''\<rparr>)\<rparr>)
        (fresh_page [algebra]) =
      handleCheckout (all_succeed\<lparr>present_answer := Some canceled\<rparr>) (fresh_page [algebra])"
proof -
  have "cartItems (fresh_page [algebra]) \<noteq> []"
    "clientSecret_answer (all_succeed\<lparr>present_answer := Some canceled\<rparr>) = Some ''pi_secret''"
    "''pi_secret'' \<noteq> []"
    "init_answer (all_succeed\<lparr>present_answer := Some canceled\<rparr>) = None"
    "present_answer (all_succeed\<lparr>present_answer := Some canceled\<rparr>) = Some canceled"
    by (simp_all add: all_succeed_def fresh_page_def)
  from present_error_single_failure_kind[OF this] obtain s' where
    s': "handleCheckout (all_succeed\<lparr>present_answer := Some canceled\<rparr>) (fresh_page [algebra]) =
            Some (PaymentFailed, s')"
      "alertTitle s' = ''Payment Failed''" "alertMessage s' = sdk_message canceled"
    and k: "\<forall>k. handleCheckout
          (all_succeed\<lparr>present_answer := Some canceled, present_answer := Some (canceled\<lparr>code := k\<rparr>)\<rparr>)
          (fresh_page [algebra]) =
        handleCheckout (all_succeed\<lparr>present_answer := Some canceled\<rparr>) (fresh_page [algebra])"
    by blast
  from k have "handleCheckout (all_succeed\<lparr>present_answer := Some (canceled\<lparr>code := ''Failed''\<rparr>)\<rparr>)
        (fresh_page [algebra]) =
      handleCheckout (all_succeed\<lparr>present_answer := Some canceled\<rparr>) (fresh_page [algebra])"
    by simp
  with s' show ?thesis by (simp add: canceled_def)
qed

lemma hidden_alert_ignores:
  "\<not> alertVisible t \<Longrightarrow> set evs \<subseteq> insert CloseAlert (range PressAlertButton) \<Longrightarrow> run evs t = t"
  unfolding run_def by (induction evs) auto

section \<open>Closing the success alert\<close>

text \<open>
  Claim C10. After an attempt that ends at the order-placed exit, a paid draft has been
  submitted, while the cart is as it was and nothing has been cleared or navigated:
  \<open>clearCart\<close> and \<open>navigate\<close> exist only in the \<open>onPress\<close> of the alert's OK button. If the
  alert is closed through \<open>onClose\<close> instead, only \<open>alertVisible\<close> changes, and as long as
  nothing but alert events follow, the page stays so: the cart keeps its items and no
  navigation happens.
\<close>

theorem closing_success_alert_keeps_cart:
  assumes "handleCheckout env s = Some (OrderPlaced, s')"
  shows "(\<exists>d. orders (new_effects s s') = [d] \<and> isPaid d) \<and>
     cartItems s' = cartItems s \<and> ClearCart \<notin> set (new_effects s s') \<and>
     (\<forall>r. Navigate r \<notin> set (new_effects s s')) \<and>
     alertVisible s' \<and> alertButtons s' = [orderPlacedButton] \<and>
     step CloseAlert s' = s'\<lparr>alertVisible := False\<rparr> \<and>
     (\<forall>evs. set evs \<subseteq> insert CloseAlert (range PressAlertButton) \<longrightarrow>
        run evs (step CloseAlert s') = s'\<lparr>alertVisible := False\<rparr>)"
proof -
  from assms obtain c where
    a: "after_createOrder (order_answer env) (order_submitted c (clock env) s) =
          (Return OrderPlaced, s')"
    by (rule handleCheckout_placed)
  from a after_createOrder_returns[of "order_answer env" "order_submitted c (clock env) s"]
  have r: "trace s' = trace (order_submitted c (clock env) s) @ [SetLoading False]"
    "cartItems s' = cartItems (order_submitted c (clock env) s)" "alertVisible s'"
    "alertButtons s' = [orderPlacedButton]"
    by auto
  have n: "new_effects s s' =
      [SetLoading True, FetchPaymentIntent (totalPrice (cartItems s)),
       InitPaymentSheet c ''Your App Name'', PresentPaymentSheet,
       CreateOrder (orderData (cartItems s) c (clock env)), SetLoading False]"
    by (simp add: new_effects_def r order_submitted_def)
  have 1: "\<exists>d. orders (new_effects s s') = [d] \<and> isPaid d"
    by (simp add: n orderData_def)
  have 2: "cartItems s' = cartItems s" using r by (simp add: order_submitted_def)
  have 3: "ClearCart \<notin> set (new_effects s s') \<and> (\<forall>r. Navigate r \<notin> set (new_effects s s'))"
    by (simp add: n)
  have 4: "step CloseAlert s' = s'\<lparr>alertVisible := False\<rparr>"
    using r by (simp add: onClose_def)
  have 5: "run evs (step CloseAlert s') = s'\<lparr>alertVisible := False\<rparr>"
    if "set evs \<subseteq> insert CloseAlert (range PressAlertButton)" for evs
    unfolding 4 using that by (intro hidden_alert_ignores) simp_all
  show ?thesis using 1 2 3 4 5 r by blast
qed

theorem closing_success_alert_keeps_cart_witness:
  "handleCheckout all_succeed (fresh_page [algebra]) = Some (OrderPlaced, order_placed_page) \<and>
   step CloseAlert order_placed_page = order_placed_page\<lparr>alertVisible := False\<rparr> \<and>
   run [PressAlertButton 0, CloseAlert] (step CloseAlert order_placed_page) =
     order_placed_page\<lparr>alertVisible := False\<rparr> \<and>
   cartItems (order_placed_page\<lparr>alertVisible := False\<rparr>) = [algebra]"
proof -
  have sub: "set [PressAlertButton 0, CloseAlert] \<subseteq> insert CloseAlert (range PressAlertButton)"
    by simp
  from closing_success_alert_keeps_cart[OF handleCheckout_all_succeed]
  have a: "step CloseAlert order_placed_page = order_placed_page\<lparr>alertVisible := False\<rparr>"
    and b: "\<forall>evs. set evs \<subseteq> insert CloseAlert (range PressAlertButton) \<longrightarrow>
        run evs (step CloseAlert order_placed_page) = order_placed_page\<lparr>alertVisible := False\<rparr>"
    and c: "cartItems order_placed_page = cartItems (fresh_page [algebra])"
    by blast+
  from b sub have "run [PressAlertButton 0, CloseAlert] (step CloseAlert order_placed_page) =
     order_placed_page\<lparr>alertVisible := False\<rparr>" by blast
  with a c handleCheckout_all_succeed show ?thesis
    by (simp del: step.simps add: fresh_page_def)
qed

section \<open>Adding to the cart\<close>

text \<open>
  Claim C9. Adding an item and then an item with the same id: the second \<open>addToCart\<close>
  returns \<open>false\<close> and leaves the cart as the first add left it, so its size does not
  change. \<open>handleAddToCart\<close> presents that result as information, not as an error: the
  alert titled ``Info'' with the information icon, saying that the item is already in the
  cart.
\<close>

theorem second_add_of_same_id_is_info:
  assumes "item_id item' = item_id item"
  shows "let cart1 = snd (addToCart item cart);
             s2 = handleAddToCart item' (s\<lparr>cartItems := cart1\<rparr>)
         in fst (addToCart item' cart1) = False \<and>
            snd (addToCart item' cart1) = cart1 \<and>
            length (snd (addToCart item' cart1)) = length cart1 \<and>
            cartItems s2 = cart1 \<and> alertVisible s2 \<and> alertTitle s2 = ''Info'' \<and>
            alertIcon s2 = ''information-circle'' \<and>
            alertMessage s2 = name item' @ '' is already in your cart.'' \<and>
            alertButtons s2 = [okButton]"
proof -
  have m: "item_id item' \<in> set (map item_id (snd (addToCart item cart)))"
    using assms by (auto simp: addToCart_def)
  then have a: "addToCart item' (snd (addToCart item cart)) = (False, snd (addToCart item cart))"
    by (simp add: addToCart_def)
  show ?thesis
    by (simp add: Let_def a handleAddToCart_def)
qed

theorem second_add_of_same_id_is_info_witness:
  "addToCart algebra [] = (True, [algebra]) \<and>
   addToCart (algebra\<lparr>name := ''Algebra again''\<rparr>) [algebra] = (False, [algebra]) \<and>
   alertTitle (handleAddToCart (algebra\<lparr>name := ''Algebra again''\<rparr>)
     (market_page\<lparr>cartItems := [algebra]\<rparr>)) = ''Info''"
proof -
  have i: "item_id (algebra\<lparr>name := ''Algebra again''\<rparr>) = item_id algebra" by simp
  have c: "addToCart algebra [] = (True, [algebra])" by (simp add: addToCart_def)
  from second_add_of_same_id_is_info[OF i, of "[]" market_page] show ?thesis
    unfolding Let_def c by (simp add: prod_eq_iff)
qed

section \<open>The loading flag\<close>

lemma one_in_flight_alt:
  "one_in_flight s \<longleftrightarrow>
     (pending s = [] \<and> \<not> loading s) \<or> (\<exists>k. pending s = [k] \<and> loading s)"
  by (cases "pending s") (auto simp: one_in_flight_def)

lemma orders_bounded_alt:
  "orders_bounded n s \<longleftrightarrow>
     (pending s = [] \<and> length (orders (trace s)) \<le> n) \<or>
     (\<exists>k. pending s = [k] \<and> length (orders (trace s)) + unpaid k \<le> n)"
  by (cases "pending s") (auto simp: orders_bounded_def)

lemma resume_effect:
  assumes "resume k a s = Some (p, s')"
  shows "pending s' = pending s \<and>
    (case p of
       Return x \<Rightarrow> \<not> loading s' \<and> orders (trace s') = orders (trace s)
     | Await k' \<Rightarrow> loading s' = loading s \<and>
         length (orders (trace s')) + unpaid k' = length (orders (trace s)) + 1 \<and>
         k \<noteq> AwaitCreateOrder)"
proof (cases "(k, a, s)" rule: resume.cases)
  case (1 items c s0)
  then show ?thesis using assms
    by (cases "(items, c, s0)" rule: after_fetchPaymentIntent.cases)
      (auto simp: setLoading_def call_def orders_append unpaid_def)
next
  case (2 items clientSecret e s0)
  then show ?thesis using assms
    by (cases e) (auto simp: setLoading_def call_def showAlert_def orders_append unpaid_def)
next
  case (3 items clientSecret e now s0)
  then show ?thesis using assms
    by (cases e) (auto simp: setLoading_def call_def showAlert_def orders_append unpaid_def)
next
  case (4 r s0)
  with assms after_createOrder_returns[of r s0] show ?thesis
    by (auto simp: orders_append)
qed (use assms in auto)


lemma start_effect:
  "items \<noteq> [] \<Longrightarrow>
   handleCheckout_start items s =
     (Await (AwaitFetchPaymentIntent items),
      s\<lparr>loading := True,
        trace := trace s @ [SetLoading True, FetchPaymentIntent (totalPrice items)]\<rparr>)"
  by (simp add: handleCheckout_start_def setLoading_def call_def)

lemma press_twice: "step PressCheckout (step PressCheckout s) = step PressCheckout s"
  by (cases "cartItems s = []") (simp_all add: start_effect)

lemma run_command_frame:
  "pending (run_command c s) = pending s \<and> loading (run_command c s) = loading s \<and>
   orders (trace (run_command c s)) = orders (trace s)"
  by (cases c) (simp_all add: call_def orders_append)

lemma commands_frame:
  "pending (foldl (\<lambda>s c. run_command c s) s cs) = pending s \<and>
   loading (foldl (\<lambda>s c. run_command c s) s cs) = loading s \<and>
   orders (trace (foldl (\<lambda>s c. run_command c s) s cs)) = orders (trace s)"
  by (induction cs arbitrary: s) (simp_all add: run_command_frame)

lemma step_one_in_flight: "one_in_flight s \<Longrightarrow> one_in_flight (step e s)"
proof (cases e)
  case PressCheckout
  assume "one_in_flight s"
  then show ?thesis using PressCheckout
    by (cases "cartItems s = []") (auto simp: one_in_flight_alt start_effect)
next
  case (Resolve i a)
  assume o: "one_in_flight s"
  show ?thesis
  proof (cases "i < length (pending s)")
    case False
    then show ?thesis using Resolve o by simp
  next
    case True
    with o obtain k where k: "pending s = [k]" "loading s" "i = 0"
      by (auto simp: one_in_flight_alt)
    show ?thesis
    proof (cases "resume k a (s\<lparr>pending := []\<rparr>)")
      case None
      then show ?thesis using Resolve o k by (simp add: remove_nth_def)
    next
      case (Some ps)
      obtain p s' where ps: "ps = (p, s')" by (cases ps)
      from resume_effect[OF Some[unfolded ps]] k
      have "one_in_flight (settle (p, s'))"
        by (cases p) (auto simp: one_in_flight_alt)
      then show ?thesis using Resolve k Some ps by (simp add: remove_nth_def)
    qed
  qed
next
  case (PressAlertButton i)
  assume "one_in_flight s"
  then show ?thesis using PressAlertButton
    by (auto simp: one_in_flight_alt press_def commands_frame)
next
  case CloseAlert
  assume "one_in_flight s"
  then show ?thesis using CloseAlert by (auto simp: one_in_flight_alt onClose_def)
qed

lemma run_one_in_flight: "one_in_flight s \<Longrightarrow> one_in_flight (run evs s)"
  unfolding run_def by (induction evs arbitrary: s) (simp_all add: step_one_in_flight)

lemma step_orders_bounded:
  "e \<noteq> PressCheckout \<Longrightarrow> orders_bounded n s \<Longrightarrow> orders_bounded n (step e s)"
proof (cases e)
  case PressCheckout
  assume "e \<noteq> PressCheckout"
  with PressCheckout show ?thesis by simp
next
  case (Resolve i a)
  assume o: "orders_bounded n s"
  show ?thesis
  proof (cases "i < length (pending s)")
    case False
    then show ?thesis using Resolve o by simp
  next
    case True
    with o obtain k where k: "pending s = [k]" "length (orders (trace s)) + unpaid k \<le> n" "i = 0"
      by (auto simp: orders_bounded_alt)
    show ?thesis
    proof (cases "resume k a (s\<lparr>pending := []\<rparr>)")
      case None
      then show ?thesis using Resolve o k by (simp add: remove_nth_def)
    next
      case (Some ps)
      obtain p s' where ps: "ps = (p, s')" by (cases ps)
      from resume_effect[OF Some[unfolded ps]] k
      have "orders_bounded n (settle (p, s'))"
        by (cases p) (auto simp: orders_bounded_alt unpaid_def split: if_splits)
      then show ?thesis using Resolve k Some ps by (simp add: remove_nth_def)
    qed
  qed
next
  case (PressAlertButton i)
  assume "orders_bounded n s"
  then show ?thesis using PressAlertButton
    by (auto simp: orders_bounded_alt press_def commands_frame)
next
  case CloseAlert
  assume "orders_bounded n s"
  then show ?thesis using CloseAlert by (auto simp: orders_bounded_alt onClose_def)
qed

lemma run_orders_bounded:
  "PressCheckout \<notin> set evs \<Longrightarrow> orders_bounded n s \<Longrightarrow> orders_bounded n (run evs s)"
proof (induction evs arbitrary: s)
  case Nil
  then show ?case by (simp add: run_def)
next
  case (Cons e evs)
  from Cons.prems have "e \<noteq> PressCheckout" "PressCheckout \<notin> set evs" by auto
  with Cons.prems Cons.IH[of "step e s"] step_orders_bounded[of e n s]
  show ?case by (simp add: run_def del: step.simps)
qed

lemma orders_bounded_after_press:
  "idle s \<Longrightarrow> orders_bounded (length (orders (trace s)) + 1) (step PressCheckout s)"
  by (cases "cartItems s = []")
    (auto simp: idle_def orders_bounded_alt start_effect unpaid_def orders_append)

lemma handleCheckout_brackets:
  "\<exists>x s' es. handleCheckout env s = Some (x, s') \<and>
     new_effects s s' = SetLoading True # es @ [SetLoading False] \<and> \<not> loading s'"
proof (cases rule: handleCheckout_cases[where s=s and env=env])
  case empty
  then show ?thesis by (simp add: handleCheckout_empty new_effects_def)
next
  case no_secret
  then show ?thesis by (simp add: handleCheckout_no_secret new_effects_def)
next
  case (init_error c e)
  then show ?thesis by (simp add: handleCheckout_init_error new_effects_def)
next
  case (present_error c e)
  then show ?thesis by (simp add: handleCheckout_present_error new_effects_def)
next
  case (paid c)
  from handleCheckout_paid[OF this] obtain x s' where
    a: "after_createOrder (order_answer env) (order_submitted c (clock env) s) = (Return x, s')"
    and h: "handleCheckout env s = Some (x, s')" by blast
  from a after_createOrder_returns[of "order_answer env" "order_submitted c (clock env) s"]
  have t: "trace s' = trace (order_submitted c (clock env) s) @ [SetLoading False]"
    "\<not> loading s'" by auto
  have "new_effects s s' = SetLoading True #
      [FetchPaymentIntent (totalPrice (cartItems s)), InitPaymentSheet c ''Your App Name'',
       PresentPaymentSheet, CreateOrder (orderData (cartItems s) c (clock env))] @
      [SetLoading False]"
    by (simp add: new_effects_def t order_submitted_def)
  with h t show ?thesis by blast
qed

text \<open>
  Claim C6. Every attempt begins with \<open>setLoading(true)\<close>, before the cart is looked at,
  and ends with \<open>setLoading(false)\<close>, whichever exit it takes. While \<open>loading\<close> holds, a
  press of the checkout button does nothing, so a second press directly after a first
  changes nothing. From an idle page, whatever events occur, at most one handler is
  suspended and \<open>loading\<close> holds while one is. Two presses in a row from an idle page,
  followed by any events other than further presses, add at most one call of the order
  API.
\<close>

theorem loading_flag_guards_checkout:
  "(\<exists>x s' es. handleCheckout env s = Some (x, s') \<and>
      new_effects s s' = SetLoading True # es @ [SetLoading False] \<and> \<not> loading s') \<and>
   (loading s \<longrightarrow> step PressCheckout s = s) \<and>
   step PressCheckout (step PressCheckout s) = step PressCheckout s \<and>
   (idle s \<longrightarrow>
      length (pending (run evs s)) \<le> 1 \<and> (pending (run evs s) \<noteq> [] \<longrightarrow> loading (run evs s))) \<and>
   (idle s \<and> PressCheckout \<notin> set evs \<longrightarrow>
      length (orders (trace (run (PressCheckout # PressCheckout # evs) s)))
        \<le> length (orders (trace s)) + 1)"
proof (intro conjI impI)
  show "\<exists>x s' es. handleCheckout env s = Some (x, s') \<and>
      new_effects s s' = SetLoading True # es @ [SetLoading False] \<and> \<not> loading s'"
    by (rule handleCheckout_brackets)
  show "step PressCheckout s = s" if "loading s" using that by simp
  show "step PressCheckout (step PressCheckout s) = step PressCheckout s"
    by (rule press_twice)
  show "length (pending (run evs s)) \<le> 1" if "idle s"
    using run_one_in_flight[of s evs] that by (auto simp: one_in_flight_alt idle_def)
  show "loading (run evs s)" if "idle s" "pending (run evs s) \<noteq> []"
    using run_one_in_flight[of s evs] that by (auto simp: one_in_flight_alt idle_def)
  show "length (orders (trace (run (PressCheckout # PressCheckout # evs) s)))
        \<le> length (orders (trace s)) + 1" if "idle s \<and> PressCheckout \<notin> set evs"
  proof -
    have "run (PressCheckout # PressCheckout # evs) s = run evs (step PressCheckout s)"
      by (simp add: run_def press_twice del: step.simps)
    moreover have "orders_bounded (length (orders (trace s)) + 1) (run evs (step PressCheckout s))"
      using that by (intro run_orders_bounded orders_bounded_after_press) simp_all
    ultimately show ?thesis by (auto simp: orders_bounded_alt)
  qed
qed

theorem loading_flag_guards_checkout_witness:
  "idle (fresh_page [algebra]) \<and> PressCheckout \<notin> set all_resolve \<and>
   loading (step PressCheckout (fresh_page [algebra])) \<and>
   step PressCheckout (step PressCheckout (fresh_page [algebra])) =
     step PressCheckout (fresh_page [algebra]) \<and>
   length (orders (trace (run (PressCheckout # PressCheckout # all_resolve)
     (fresh_page [algebra])))) \<le> 1"
proof -
  let ?p = "fresh_page [algebra]"
  have i: "idle ?p" by (simp add: idle_def fresh_page_def)
  have n: "PressCheckout \<notin> set all_resolve" by (simp add: all_resolve_def)
  have l: "loading (step PressCheckout ?p)" by (simp add: start_effect fresh_page_def)
  from loading_flag_guards_checkout[of all_succeed ?p all_resolve] i n
  have "length (orders (trace (run (PressCheckout # PressCheckout # all_resolve) ?p)))
      \<le> length (orders (trace ?p)) + 1" by blast
  then have b: "length (orders (trace (run (PressCheckout # PressCheckout # all_resolve) ?p))) \<le> 1"
    by (simp add: fresh_page_def)
  from loading_flag_guards_checkout[of all_succeed "step PressCheckout ?p" "[]"] l
  have "step PressCheckout (step PressCheckout ?p) = step PressCheckout ?p" by blast
  with i n l b show ?thesis by blast
qed

section \<open>The total in binary floating point\<close>

lemma bitlen_pos: "0 < (a::int) \<Longrightarrow> 1 \<le> bitlen a"
  by (subst compute_bitlen) (simp add: bitlen_nonneg)

lemma ilog2_bounds:
  assumes "0 < x"
  shows "power_int 2 (ilog2 x) \<le> x \<and> x < power_int 2 (ilog2 x + 1)"
proof -
  obtain a b where q: "quotient_of x = (a, b)" by (cases "quotient_of x")
  then have b: "0 < b" and x: "x = of_int a / of_int b"
    by (simp_all add: quotient_of_denom_pos quotient_of_div)
  with assms have a: "0 < a" by (simp add: zero_less_divide_iff)
  define la lb where "la = bitlen a" and "lb = bitlen b"
  from bitlen_bounds[OF a] have a1: "(2::int) ^ nat (la - 1) \<le> a" and a2: "a < 2 ^ nat la"
    by (simp_all add: la_def)
  from bitlen_bounds[OF b] have b1: "(2::int) ^ nat (lb - 1) \<le> b" and b2: "b < 2 ^ nat lb"
    by (simp_all add: lb_def)
  have la: "1 \<le> la" and lb: "1 \<le> lb" using a b by (simp_all add: la_def lb_def bitlen_pos)
  have a1': "power_int 2 (la - 1) \<le> (of_int a :: rat)"
  proof -
    have "(of_int (2 ^ nat (la - 1)) :: rat) \<le> of_int a" using a1 by (simp only: of_int_le_iff)
    then show ?thesis using la by (simp add: power_int_def)
  qed
  have a2': "(of_int a :: rat) < power_int 2 la"
  proof -
    have "(of_int a :: rat) < of_int (2 ^ nat la)" using a2 by (simp only: of_int_less_iff)
    then show ?thesis using la by (simp add: power_int_def)
  qed
  have b1': "power_int 2 (lb - 1) \<le> (of_int b :: rat)"
  proof -
    have "(of_int (2 ^ nat (lb - 1)) :: rat) \<le> of_int b" using b1 by (simp only: of_int_le_iff)
    then show ?thesis using lb by (simp add: power_int_def)
  qed
  have b2': "(of_int b :: rat) < power_int 2 lb"
  proof -
    have "(of_int b :: rat) < of_int (2 ^ nat lb)" using b2 by (simp only: of_int_less_iff)
    then show ?thesis using lb by (simp add: power_int_def)
  qed
  have bp: "(0::rat) < of_int b" using b by simp
  have up: "x < power_int 2 (la - lb + 1)"
  proof -
    have "x * of_int b = of_int a" using x bp by simp
    also have "\<dots> < power_int 2 la" by (rule a2')
    also have "\<dots> = power_int 2 (la - lb + 1) * power_int 2 (lb - 1)"
      by (simp flip: power_int_add)
    also have "\<dots> \<le> power_int 2 (la - lb + 1) * of_int b"
      by (intro mult_left_mono b1') simp
    finally show ?thesis using bp by simp
  qed
  have lo: "power_int 2 (la - lb - 1) < x"
  proof -
    have "power_int 2 (la - lb - 1) * (of_int b :: rat) < power_int 2 (la - lb - 1) * power_int 2 lb"
      by (intro mult_strict_left_mono b2') simp
    also have "\<dots> = power_int 2 (la - 1)" by (simp flip: power_int_add)
    also have "\<dots> \<le> of_int a" by (rule a1')
    also have "\<dots> = x * of_int b" using x bp by simp
    finally show ?thesis using bp by simp
  qed
  have i: "ilog2 x = (if power_int 2 (la - lb) \<le> x then la - lb else la - lb - 1)"
    by (simp add: ilog2_def q la_def lb_def)
  show ?thesis
  proof (cases "power_int 2 (la - lb) \<le> x")
    case True
    then show ?thesis using up i by simp
  next
    case False
    then show ?thesis using lo i by simp
  qed
qed


lemma ulp_pos: "0 < ulp x"
  by (simp add: ulp_def)

lemma ilog2_le:
  assumes "0 < x" "x \<le> power_int 2 k"
  shows "ilog2 x \<le> k"
proof (rule ccontr)
  assume "\<not> ilog2 x \<le> k"
  then have "k < ilog2 x" by simp
  then have "(power_int 2 k :: rat) < power_int 2 (ilog2 x)"
    by (intro power_int_strict_increasing) simp_all
  also have "\<dots> \<le> x" using ilog2_bounds[OF assms(1)] by simp
  finally show False using assms(2) by simp
qed

lemma ulp_le:
  assumes "0 < x" "x \<le> power_int 2 k" "- 1022 \<le> k"
  shows "ulp x \<le> power_int 2 (k - 52)"
proof -
  have "max (ilog2 \<bar>x\<bar>) (- 1022) - 52 \<le> k - 52"
    using ilog2_le[OF assms(1,2)] assms(1,3) by simp
  then show ?thesis unfolding ulp_def by (intro power_int_increasing) simp_all
qed

lemma round_half_even_near: "\<bar>of_int (round_half_even y) - y\<bar> \<le> 1 / 2"
proof -
  have "of_int \<lfloor>y\<rfloor> \<le> y" "y < of_int \<lfloor>y\<rfloor> + 1" by linarith+
  then show ?thesis by (auto simp: round_half_even_def Let_def)
qed

lemma round_half_even_nonneg: "0 \<le> y \<Longrightarrow> 0 \<le> round_half_even y"
  by (auto simp: round_half_even_def Let_def)

lemma round_binary64_near:
  assumes "0 \<le> x" "x \<le> 2 ^ 30"
  shows "\<exists>r. round_binary64 x = Finite r \<and> 0 \<le> r \<and> \<bar>r - x\<bar> \<le> eps"
proof (cases "x = 0")
  case True
  then show ?thesis by (simp add: round_binary64_def eps_def)
next
  case False
  with assms have xp: "0 < x" by simp
  define u where "u = ulp x"
  define r where "r = of_int (round_half_even (x / u)) * u"
  have up: "0 < u" by (simp add: u_def ulp_pos)
  have "x \<le> power_int 2 30" using assms(2) by (simp add: power_int_def)
  from ulp_le[OF xp this] have "u \<le> power_int 2 (- 22)" by (simp add: u_def)
  then have ule: "u \<le> 1 / 4194304" by (simp add: power_int_minus inverse_eq_divide)
  have "r - x = (of_int (round_half_even (x / u)) - x / u) * u"
    using up by (simp add: r_def algebra_simps)
  then have "\<bar>r - x\<bar> = \<bar>of_int (round_half_even (x / u)) - x / u\<bar> * u"
    using up by (simp add: abs_mult)
  also have "\<dots> \<le> 1 / 2 * u"
    using round_half_even_near[of "x / u"] up by (intro mult_right_mono) simp_all
  also have "\<dots> \<le> eps" using ule by (simp add: eps_def)
  finally have near: "\<bar>r - x\<bar> \<le> eps" .
  have rn: "0 \<le> r"
    using round_half_even_nonneg[of "x / u"] up xp by (simp add: r_def)
  have "r \<le> x + eps" using near by linarith
  also have "\<dots> \<le> 2 ^ 30 + 1" using assms(2) by (simp add: eps_def)
  also have "\<dots> < (2::rat) ^ 1024" by simp
  finally have "\<bar>r\<bar> < 2 ^ 1024" using rn by simp
  then have "round_binary64 x = Finite r"
    using False by (simp add: round_binary64_def r_def u_def Let_def)
  with rn near show ?thesis by blast
qed

lemma float_sum_snoc:
  "float_sum (items @ [item]) = add_number (float_sum items) (parseFloat (price item))"
  by (simp add: float_sum_def)

lemma exact_decimal_sum_snoc: "exact_decimal_sum (items @ [item]) = exact_decimal_sum items + price item"
  by (simp add: exact_decimal_sum_def)

lemma exact_decimal_sum_nonneg: "\<forall>i \<in> set items. 0 \<le> price i \<Longrightarrow> 0 \<le> exact_decimal_sum items"
  by (induction items) (simp_all add: exact_decimal_sum_def)

lemma float_sum_near:
  assumes "length items \<le> 10000" "\<forall>i \<in> set items. 0 \<le> price i"
    "exact_decimal_sum items \<le> 1000000000"
  shows "\<exists>a. float_sum items = Finite a \<and> 0 \<le> a \<and>
           \<bar>a - exact_decimal_sum items\<bar> \<le> 2 * of_nat (length items) * eps"
  using assms
proof (induction items rule: rev_induct)
  case Nil
  then show ?case by (simp add: float_sum_def exact_decimal_sum_def)
next
  case (snoc item items)
  have p0: "0 \<le> price item" using snoc.prems(2) by simp
  have s0: "0 \<le> exact_decimal_sum items"
    using snoc.prems(2) by (intro exact_decimal_sum_nonneg) simp
  have tot: "exact_decimal_sum items + price item \<le> 1000000000"
    using snoc.prems(3) by (simp add: exact_decimal_sum_snoc)
  have len: "length items < 10000" using snoc.prems(1) by simp
  from snoc.IH p0 s0 tot len snoc.prems(2) obtain a where
    a: "float_sum items = Finite a" "0 \<le> a"
       "\<bar>a - exact_decimal_sum items\<bar> \<le> 2 * of_nat (length items) * eps"
    by auto
  have "price item \<le> 2 ^ 30" using tot s0 by simp
  from round_binary64_near[OF p0 this] obtain q where
    q: "parseFloat (price item) = Finite q" "0 \<le> q" "\<bar>q - price item\<bar> \<le> eps"
    by (auto simp: parseFloat_def)
  have n: "(of_nat (length items) :: rat) \<le> 9999"
  proof -
    have "length items \<le> 9999" using len by simp
    then have "(of_nat (length items) :: rat) \<le> of_nat 9999" by (simp only: of_nat_le_iff)
    then show ?thesis by simp
  qed
  have e: "2 * of_nat (length items) * eps + eps \<le> 1"
  proof -
    have "2 * of_nat (length items) * eps + eps \<le> 2 * 9999 * eps + eps"
      using n by (simp add: eps_def)
    also have "\<dots> \<le> 1" by (simp add: eps_def)
    finally show ?thesis .
  qed
  have "a + q \<le> exact_decimal_sum items + price item + (2 * of_nat (length items) * eps + eps)"
    using a(3) q(3) by linarith
  also have "\<dots> \<le> 2 ^ 30" using tot e by simp
  finally have "a + q \<le> 2 ^ 30" .
  moreover have "0 \<le> a + q" using a(2) q(2) by simp
  ultimately obtain r where
    r: "round_binary64 (a + q) = Finite r" "0 \<le> r" "\<bar>r - (a + q)\<bar> \<le> eps"
    using round_binary64_near by blast
  have "float_sum (items @ [item]) = Finite r"
    by (simp add: float_sum_snoc a q r)
  moreover have "\<bar>r - exact_decimal_sum (items @ [item])\<bar>
      \<le> 2 * of_nat (length (items @ [item])) * eps"
    using a(3) q(3) r(3) by (simp add: exact_decimal_sum_snoc algebra_simps)
  ultimately show ?case using r(2) by blast
qed


lemma whole_cents_total:
  "\<forall>i \<in> set items. whole_cents (price i) \<Longrightarrow>
   0 \<le> exact_decimal_sum items \<and> 100 * exact_decimal_sum items \<in> \<int>"
proof (induction items)
  case Nil
  then show ?case by (simp add: exact_decimal_sum_def)
next
  case (Cons i items)
  then have w: "whole_cents (price i)" and "100 * exact_decimal_sum items \<in> \<int>"
    "0 \<le> exact_decimal_sum items"
    by simp_all
  moreover from w have "0 \<le> price i" "of_int \<lfloor>100 * price i\<rfloor> = 100 * price i"
    by (simp_all add: whole_cents_def)
  moreover from this(2) have "100 * price i \<in> \<int>" by (metis Ints_of_int)
  ultimately have "100 * price i \<in> \<int>" "0 \<le> price i" "100 * exact_decimal_sum items \<in> \<int>"
    "0 \<le> exact_decimal_sum items"
    by simp_all
  then have "100 * price i + 100 * exact_decimal_sum items \<in> \<int>" "0 \<le> price i + exact_decimal_sum items"
    by (simp_all del: Ints_add add: Ints_add[of "100 * price i"])
  then show ?case by (simp add: exact_decimal_sum_def algebra_simps)
qed

text \<open>
  The total is not the exact decimal sum rounded to two places for every cart: the prices
  go through \<open>parseFloat\<close> and Number addition. A single item priced 0.015 shows 0.01,
  where the exact sum rounds to 0.02 (half up or half even); a single item priced
  90071992547409.93 shows 90071992547409.94.
\<close>

theorem float_total_differs_from_decimal_counterexample:
  "totalPrice [algebra\<lparr>price := 3 / 200\<rparr>] = Fixed2 False 1 \<and>
   round (100 * exact_decimal_sum [algebra\<lparr>price := 3 / 200\<rparr>]) = 2 \<and>
   round_half_even (100 * exact_decimal_sum [algebra\<lparr>price := 3 / 200\<rparr>]) = 2 \<and>
   totalPrice [algebra\<lparr>price := 9007199254740993 / 100\<rparr>] =
     Fixed2 False 9007199254740994 \<and>
   100 * exact_decimal_sum [algebra\<lparr>price := 9007199254740993 / 100\<rparr>] = 9007199254740993"
  by code_simp

text \<open>
  Claim C5, as amended. For a cart of at most 10000 items whose prices are non-negative
  whole-cent amounts with an exact sum of at most 1,000,000,000, the total that the page
  shows and charges, computed from the current items in binary floating point, is the
  text of the exact decimal sum of the prices with two decimals; and it is the same for
  every order of the items.
\<close>

theorem whole_cent_total_is_exact:
  assumes "length items \<le> 10000" "\<forall>i \<in> set items. whole_cents (price i)"
    "exact_decimal_sum items \<le> 1000000000"
  shows "totalPrice items = Fixed2 False \<lfloor>100 * exact_decimal_sum items\<rfloor> \<and>
     of_int \<lfloor>100 * exact_decimal_sum items\<rfloor> / 100 = exact_decimal_sum items \<and>
     (\<forall>items'. mset items' = mset items \<longrightarrow> totalPrice items' = totalPrice items)"
proof -
  have main: "totalPrice xs = Fixed2 False \<lfloor>100 * exact_decimal_sum xs\<rfloor> \<and>
     of_int \<lfloor>100 * exact_decimal_sum xs\<rfloor> / 100 = exact_decimal_sum xs"
    if h: "length xs \<le> 10000" "\<forall>i \<in> set xs. whole_cents (price i)"
      "exact_decimal_sum xs \<le> 1000000000" for xs
  proof -
    from whole_cents_total[OF h(2)]
    have s0: "0 \<le> exact_decimal_sum xs" and si: "100 * exact_decimal_sum xs \<in> \<int>" by simp_all
    then obtain c where c: "100 * exact_decimal_sum xs = of_int c" by (auto elim: Ints_cases)
    have cn: "0 \<le> c"
    proof -
      have "(0::rat) \<le> of_int c" using s0 c by (metis mult_nonneg_nonneg zero_le_numeral)
      then show ?thesis by simp
    qed
    have nn: "\<forall>i \<in> set xs. 0 \<le> price i" using h(2) by (simp add: whole_cents_def)
    from float_sum_near[OF h(1) nn h(3)] obtain a where
      a: "float_sum xs = Finite a" "0 \<le> a"
         "\<bar>a - exact_decimal_sum xs\<bar> \<le> 2 * of_nat (length xs) * eps"
      by blast
    have "(of_nat (length xs) :: rat) \<le> of_nat 10000" using h(1) by (simp only: of_nat_le_iff)
    then have "2 * of_nat (length xs) * eps \<le> 2 * 10000 * eps" by (simp add: eps_def)
    also have "\<dots> < 1 / 200" by (simp add: eps_def)
    finally have lt: "\<bar>a - exact_decimal_sum xs\<bar> < 1 / 200" using a(3) by simp
    have eq: "a * 100 - of_int c = 100 * (a - exact_decimal_sum xs)"
      by (simp add: c[symmetric] algebra_simps)
    have ae: "\<bar>a * 100 - of_int c\<bar> = 100 * \<bar>a - exact_decimal_sum xs\<bar>"
      unfolding eq abs_mult by simp
    have near: "\<bar>a * 100 - of_int c\<bar> < 1 / 2"
      unfolding ae using lt by simp
    have fl: "\<lfloor>a * 100 + 1 / 2\<rfloor> = c"
      by (rule floor_unique) (use near in linarith)+
    have "a \<le> exact_decimal_sum xs + 1" using lt by linarith
    then have small: "\<not> 10 ^ 21 \<le> \<bar>a\<bar>" using h(3) a(2) by simp
    have "totalPrice xs = Fixed2 False c"
      using a(1,2) small fl by (simp add: totalPrice_def toFixed2_def flip: float_sum_def)
    moreover have "\<lfloor>100 * exact_decimal_sum xs\<rfloor> = c" by (simp add: c)
    moreover have "of_int c / 100 = exact_decimal_sum xs"
      using cn c by simp
    ultimately show ?thesis by simp
  qed
  have "totalPrice items' = totalPrice items" if m: "mset items' = mset items" for items'
  proof -
    have "length items' = length items" using m by (metis size_mset)
    moreover have "set items' = set items" using m by (metis set_mset_mset)
    moreover have "exact_decimal_sum items' = exact_decimal_sum items"
      unfolding exact_decimal_sum_def using m by (metis mset_map sum_mset_sum_list)
    ultimately show ?thesis using main[of items'] main[of items] assms by simp
  qed
  with main[OF assms] show ?thesis by blast
qed

theorem whole_cent_total_is_exact_witness:
  "length [algebra, geometry] \<le> 10000 \<and>
   whole_cents (price algebra) \<and> whole_cents (price geometry) \<and>
   exact_decimal_sum [algebra, geometry] \<le> 1000000000 \<and>
   totalPrice [algebra, geometry] = Fixed2 False 4498 \<and>
   totalPrice [geometry, algebra] = totalPrice [algebra, geometry]"
proof -
  have h: "length [algebra, geometry] \<le> 10000"
    "\<forall>i \<in> set [algebra, geometry]. whole_cents (price i)"
    "exact_decimal_sum [algebra, geometry] \<le> 1000000000"
    by (simp_all add: algebra_def geometry_def whole_cents_def exact_decimal_sum_def)
  have f: "\<lfloor>100 * exact_decimal_sum [algebra, geometry]\<rfloor> = 4498"
    by (simp add: algebra_def geometry_def exact_decimal_sum_def)
  have m: "mset [geometry, algebra] = mset [algebra, geometry]" by simp
  from whole_cent_total_is_exact[OF h] f m h show ?thesis by auto
qed

end
